theory Spec2Isabelle
  imports Complex_Main
begin

section \<open>Dates\<close>

text \<open>
  A JavaScript \<^verbatim>\<open>Date\<close> is its time value: the milliseconds since the epoch, an
  integer. The component reads a date through \<^verbatim>\<open>getTime\<close>, \<^verbatim>\<open>getFullYear\<close>,
  \<^verbatim>\<open>getMonth\<close> and \<^verbatim>\<open>getDate\<close> and builds one with \<^verbatim>\<open>new Date(y, m, d)\<close> and
  \<^verbatim>\<open>new Date(ms)\<close>. These built-ins are written out below after ECMA-262 (section
  "Date Objects": Day, DaysInYear, DayFromYear, YearFromTime, MonthFromTime,
  DateFromTime, MakeDay, MakeDate, LocalTime, UTC), with two limits of the model:
  the local time zone is a fixed offset \<open>tz\<close> (milliseconds east of UTC, no
  daylight saving), and time values are unbounded integers, so the Invalid Date
  (NaN) and the range limit of 8.64e15 ms are not represented.
\<close>

type_synonym date = int

definition msPerDay :: int where
  "msPerDay = 86400000"

definition DayNumber :: "int \<Rightarrow> int" where
  "DayNumber t = t div msPerDay"

definition TimeWithinDay :: "int \<Rightarrow> int" where
  "TimeWithinDay t = t mod msPerDay"

definition DaysInYear :: "int \<Rightarrow> int" where
  "DaysInYear y =
     (if y mod 4 \<noteq> 0 then 365
      else if y mod 100 \<noteq> 0 then 366
      else if y mod 400 \<noteq> 0 then 365
      else 366)"

definition DayFromYear :: "int \<Rightarrow> int" where
  "DayFromYear y =
     365 * (y - 1970) + (y - 1969) div 4 - (y - 1901) div 100 + (y - 1601) div 400"

text \<open>
  ECMA-262 specifies the year of a day as the largest \<open>y\<close> with
  \<open>DayFromYear y \<le> n\<close>. \<open>YearFromDay\<close> computes it: the estimate from the mean
  year length of 146097/400 days is off by at most one (lemma \<open>YearFromDay_bounds\<close>).
\<close>

definition YearFromDay :: "int \<Rightarrow> int" where
  "YearFromDay n =
     (let y = 1970 + (400 * n) div 146097
      in if n < DayFromYear y then y - 1
         else if DayFromYear (y + 1) \<le> n then y + 1
         else y)"

definition InLeapYear :: "int \<Rightarrow> int" where
  "InLeapYear y = (if DaysInYear y = 366 then 1 else 0)"

definition DayWithinYear :: "int \<Rightarrow> int" where
  "DayWithinYear n = n - DayFromYear (YearFromDay n)"

text \<open>The month (0 to 11) of a day of the year, \<open>l\<close> being 1 in a leap year.\<close>

definition MonthFromDayInYear :: "int \<Rightarrow> int \<Rightarrow> int" where
  "MonthFromDayInYear l d =
     (if d < 31 then 0
      else if d < 59 + l then 1
      else if d < 90 + l then 2
      else if d < 120 + l then 3
      else if d < 151 + l then 4
      else if d < 181 + l then 5
      else if d < 212 + l then 6
      else if d < 243 + l then 7
      else if d < 273 + l then 8
      else if d < 304 + l then 9
      else if d < 334 + l then 10
      else 11)"

text \<open>The number of days of the year before month \<open>m\<close> (0 to 11).\<close>

definition DaysBeforeMonth :: "int \<Rightarrow> int \<Rightarrow> int" where
  "DaysBeforeMonth l m =
     (if m = 0 then 0
      else if m = 1 then 31
      else if m = 2 then 59 + l
      else if m = 3 then 90 + l
      else if m = 4 then 120 + l
      else if m = 5 then 151 + l
      else if m = 6 then 181 + l
      else if m = 7 then 212 + l
      else if m = 8 then 243 + l
      else if m = 9 then 273 + l
      else if m = 10 then 304 + l
      else 334 + l)"

definition MonthFromDay :: "int \<Rightarrow> int" where
  "MonthFromDay n = MonthFromDayInYear (InLeapYear (YearFromDay n)) (DayWithinYear n)"

definition DateFromDay :: "int \<Rightarrow> int" where
  "DateFromDay n =
     DayWithinYear n - DaysBeforeMonth (InLeapYear (YearFromDay n)) (MonthFromDay n) + 1"

text \<open>
  \<open>MakeDay year month date\<close>: months outside 0 to 11 carry into the year, and the
  date counts on from the first of the month, so \<open>date\<close> may run past its end.
\<close>

definition MakeDay :: "int \<Rightarrow> int \<Rightarrow> int \<Rightarrow> int" where
  "MakeDay year month dt =
     (let ym = year + month div 12; mn = month mod 12
      in DayFromYear ym + DaysBeforeMonth (InLeapYear ym) mn + dt - 1)"

definition MakeDate :: "int \<Rightarrow> int \<Rightarrow> int" where
  "MakeDate dy tm = dy * msPerDay + tm"

definition LocalTime :: "int \<Rightarrow> date \<Rightarrow> int" where
  "LocalTime tz t = t + tz"

definition UTC :: "int \<Rightarrow> int \<Rightarrow> date" where
  "UTC tz t = t - tz"

definition getFullYear :: "int \<Rightarrow> date \<Rightarrow> int" where
  "getFullYear tz d = YearFromDay (DayNumber (LocalTime tz d))"

definition getMonth :: "int \<Rightarrow> date \<Rightarrow> int" where
  "getMonth tz d = MonthFromDay (DayNumber (LocalTime tz d))"

definition getDate :: "int \<Rightarrow> date \<Rightarrow> int" where
  "getDate tz d = DateFromDay (DayNumber (LocalTime tz d))"

text \<open>
  \<^verbatim>\<open>new Date(y, m, d)\<close>: local midnight of the given day. The constructor maps a
  year argument from 0 to 99 to 1900 + y.
\<close>

definition newDate :: "int \<Rightarrow> int \<Rightarrow> int \<Rightarrow> int \<Rightarrow> date" where
  "newDate tz y m dt =
     (let yr = (if 0 \<le> y \<and> y \<le> 99 then 1900 + y else y)
      in UTC tz (MakeDate (MakeDay yr m dt) 0))"

text \<open>
  \<^verbatim>\<open>new Date(x)\<close> for a number \<open>x\<close>: TimeClip drops the fraction, rounding towards
  zero. JavaScript numbers are modelled as exact rationals. For the band drag that
  is what the doubles compute: time values and their halves are far below 2^52 in
  size. For the percentages of the coordinate mapper it leaves the rounding of the
  doubles out.
\<close>

definition newDateOfNumber :: "rat \<Rightarrow> date" where
  "newDateOfNumber x = (if 0 \<le> x then \<lfloor>x\<rfloor> else \<lceil>x\<rceil>)"

section \<open>The timeline slicer\<close>

text \<open>
  The fields \<open>start\<close> and \<open>end\<close> of a \<open>DateRange\<close> are \<open>range_start\<close> and
  \<open>range_end\<close> here (\<open>end\<close> is reserved), and the granularity strings are the
  constructors of a datatype.
\<close>

record DateRange =
  range_start :: date
  range_end :: date

datatype granularity = Day | Month | Quarter | Year

subsection \<open>Date utilities\<close>

definition clampDate :: "date \<Rightarrow> date \<Rightarrow> date \<Rightarrow> date" where
  "clampDate d minD maxD = (if d < minD then minD else if d > maxD then maxD else d)"

fun floorToGranularity :: "int \<Rightarrow> date \<Rightarrow> granularity \<Rightarrow> date" where
  "floorToGranularity tz d Day = newDate tz (getFullYear tz d) (getMonth tz d) (getDate tz d)"
| "floorToGranularity tz d Month = newDate tz (getFullYear tz d) (getMonth tz d) 1"
| "floorToGranularity tz d Quarter =
     (let q = (getMonth tz d div 3) * 3 in newDate tz (getFullYear tz d) q 1)"
| "floorToGranularity tz d Year = newDate tz (getFullYear tz d) 0 1"

definition ceilToGranularity :: "int \<Rightarrow> date \<Rightarrow> granularity \<Rightarrow> date" where
  "ceilToGranularity tz d g =
     (let floored = floorToGranularity tz d g
      in if floored = d then d
         else (case g of
             Day \<Rightarrow> newDate tz (getFullYear tz d) (getMonth tz d) (getDate tz d + 1)
           | Month \<Rightarrow> newDate tz (getFullYear tz floored) (getMonth tz floored + 1) 1
           | Quarter \<Rightarrow> newDate tz (getFullYear tz floored) (getMonth tz floored + 3) 1
           | Year \<Rightarrow> newDate tz (getFullYear tz floored + 1) 0 1))"

subsection \<open>Granularity boundaries\<close>

text \<open>
  A date is on a boundary of a granularity when it is a local midnight: any for
  days, that of the first of a month for months, of the first of January, April,
  July or October for quarters, of the first of January for years.
\<close>

definition on_boundary :: "int \<Rightarrow> granularity \<Rightarrow> date \<Rightarrow> bool" where
  "on_boundary tz g d \<longleftrightarrow>
     TimeWithinDay (LocalTime tz d) = 0
     \<and> (case g of
          Day \<Rightarrow> True
        | Month \<Rightarrow> getDate tz d = 1
        | Quarter \<Rightarrow> getDate tz d = 1 \<and> getMonth tz d mod 3 = 0
        | Year \<Rightarrow> getDate tz d = 1 \<and> getMonth tz d = 0)"

subsection \<open>The normalized range of the controlled value\<close>

text \<open>
  The props \<open>min\<close>, \<open>max\<close>, \<open>value\<close> and \<open>snap\<close> are the arguments \<open>mn\<close>, \<open>mx\<close>,
  \<open>val\<close> and \<open>snap\<close>; an omitted \<open>value\<close> is \<open>None\<close>.
\<close>

definition range_of_value :: "date \<Rightarrow> date \<Rightarrow> DateRange option \<Rightarrow> DateRange" where
  "range_of_value mn mx val =
     (case val of Some v \<Rightarrow> v | None \<Rightarrow> \<lparr>range_start = mn, range_end = mx\<rparr>)"

definition normalizedRange ::
  "int \<Rightarrow> date \<Rightarrow> date \<Rightarrow> DateRange option \<Rightarrow> bool \<Rightarrow> granularity \<Rightarrow> DateRange" where
  "normalizedRange tz mn mx val snap g =
     (let range = range_of_value mn mx val;
          s = clampDate (range_start range) mn mx;
          e = clampDate (range_end range) mn mx;
          (s, e) = (if s > e then (e, s) else (s, e));
          (s, e) = (if snap
                    then (let s = floorToGranularity tz s g;
                              e = ceilToGranularity tz e g;
                              s = clampDate s mn mx;
                              e = clampDate e mn mx
                          in (s, e))
                    else (s, e))
      in \<lparr>range_start = s, range_end = e\<rparr>)"

subsection \<open>The coordinate mapper\<close>

text \<open>
  \<open>total_ms\<close> is the component's \<open>total\<close>, the length of the track in milliseconds.
  \<open>fromPct\<close> is the exact value of \<open>min + (pct / 100) * total\<close>, rounded towards zero.
  The code computes the sum in doubles, which can fall just short of a whole
  millisecond that the exact value reaches, and then builds a date 1 ms earlier:
  with \<open>min = 0\<close> and \<open>max = 1704067200000\<close> the percentage of 86400000 comes back as
  86399999. So \<open>fromPct\<close> stands for the code only where the doubles are exact, as at
  the pixels of the run under C8, or where a statement holds whatever date it
  returns. The inverse \<open>toPct\<close> serves the display only, and the round trip of the
  two is a statement about the rounding of doubles, which this model leaves out.
\<close>

definition total_ms :: "date \<Rightarrow> date \<Rightarrow> int" where
  "total_ms mn mx = max 1 (mx - mn)"

definition fromPct :: "date \<Rightarrow> date \<Rightarrow> rat \<Rightarrow> date" where
  "fromPct mn mx pct = newDateOfNumber (of_int mn + (pct / 100) * of_int (total_ms mn mx))"

subsection \<open>Committing a drag\<close>

text \<open>\<open>commitDrag\<close> returns the range it passes to \<open>setRange\<close>, that is to \<open>onChange\<close>.\<close>

definition commitDrag ::
  "int \<Rightarrow> date \<Rightarrow> date \<Rightarrow> bool \<Rightarrow> granularity \<Rightarrow> date \<Rightarrow> date \<Rightarrow> DateRange" where
  "commitDrag tz mn mx snap g newStart newEnd =
     (let (s, e) = (if newStart > newEnd then (newEnd, newStart) else (newStart, newEnd));
          (s, e) = (if snap
                    then (floorToGranularity tz s g, ceilToGranularity tz e g)
                    else (s, e));
          s = clampDate s mn mx;
          e = clampDate e mn mx;
          (s, e) = (if s > e then (e, s) else (s, e))
      in \<lparr>range_start = s, range_end = e\<rparr>)"

text \<open>
  The track's bounding rectangle; \<open>None\<close> stands for an unset \<open>trackRef\<close>. On a
  track of width 0 the quotient of \<open>pointerToPct\<close> is NaN in JavaScript, and the
  code goes on with an Invalid Date, which the dates here do not have; the quotient
  is 0 here. What is said of all runs below is said of tracks of positive width.
\<close>

record DOMRect =
  rect_left :: rat
  rect_width :: rat

definition pointerToPct :: "DOMRect option \<Rightarrow> rat \<Rightarrow> rat" where
  "pointerToPct track clientX =
     (case track of
        None \<Rightarrow> 0
      | Some rect \<Rightarrow>
          (let x = clientX - rect_left rect;
               clampedX = max 0 (min x (rect_width rect))
           in (clampedX / rect_width rect) * 100))"

datatype DragTarget = DragStart | DragEnd | DragRange

text \<open>
  The band branch of the pointer-move callback: the window of the current span,
  centred on the pointer's date and shifted back inside the bounds. Its numbers are
  whole and half milliseconds; while the bounds and the pointer's date are within
  2^50 ms of the epoch, all of them are below 2^52 in size and the doubles of the
  code hold them exactly, as the rationals here do. Beyond that the doubles round.
\<close>

definition bandDrag ::
  "int \<Rightarrow> date \<Rightarrow> date \<Rightarrow> bool \<Rightarrow> granularity \<Rightarrow> DateRange \<Rightarrow> date \<Rightarrow> DateRange" where
  "bandDrag tz mn mx snap g nr dateAt =
     (let span = (of_int (range_end nr - range_start nr) :: rat);
          minTime = of_int mn;
          maxTime = of_int mx;
          center = of_int dateAt;
          s = center - span / 2;
          e2 = center + span / 2;
          (s, e2) = (if s < minTime then (minTime, e2 + (minTime - s)) else (s, e2));
          (s, e2) = (if e2 > maxTime then (s - (e2 - maxTime), maxTime) else (s, e2))
      in commitDrag tz mn mx snap g (newDateOfNumber s) (newDateOfNumber e2))"

text \<open>
  The body of the animation-frame callback that \<open>onPointerMove\<close> schedules. It reads
  \<open>dragging.current\<close> and the track when the frame runs; \<open>nr\<close> is the normalized
  range of the render that created the handler, \<open>clientX\<close> the event's position.
  The result is the range committed, \<open>None\<close> when nothing is.
\<close>

definition moveCallback ::
  "int \<Rightarrow> date \<Rightarrow> date \<Rightarrow> bool \<Rightarrow> granularity \<Rightarrow> DateRange \<Rightarrow> DOMRect option \<Rightarrow>
   DragTarget option \<Rightarrow> rat \<Rightarrow> DateRange option" where
  "moveCallback tz mn mx snap g nr track dragging clientX =
     (let pct = pointerToPct track clientX;
          dateAt = fromPct mn mx pct
      in case dragging of
           Some DragStart \<Rightarrow> Some (commitDrag tz mn mx snap g dateAt (range_end nr))
         | Some DragEnd \<Rightarrow> Some (commitDrag tz mn mx snap g (range_start nr) dateAt)
         | Some DragRange \<Rightarrow> Some (bandDrag tz mn mx snap g nr dateAt)
         | None \<Rightarrow> None)"

subsection \<open>Switching the granularity\<close>

definition handleGranularityChange ::
  "int \<Rightarrow> date \<Rightarrow> date \<Rightarrow> DateRange \<Rightarrow> granularity \<Rightarrow> DateRange" where
  "handleGranularityChange tz mn mx nr newGranularity =
     (let s = floorToGranularity tz (range_start nr) newGranularity;
          e = ceilToGranularity tz (range_end nr) newGranularity
      in \<lparr>range_start = clampDate s mn mx, range_end = clampDate e mn mx\<rparr>)"

subsection \<open>The drag state machine\<close>

text \<open>
  The component's mutable state, one event at a time. \<open>st_dragging\<close> is
  \<open>dragging.current\<close>. \<open>st_raf\<close> is the animation-frame callback that is requested
  and has not run: \<open>onPointerMove\<close> cancels the one before and requests a new one,
  whose closure holds the event's \<open>clientX\<close> and the normalized range and
  granularity of the render that created the handler. \<open>st_value\<close> is the
  \<open>value\<close> prop: the plugin passes its \<open>dateRange\<close> state and \<open>setDateRange\<close> as
  \<open>onChange\<close>, so a committed range comes back as the next value. \<open>st_onChange\<close>
  lists the ranges passed to \<open>onChange\<close>, oldest first.
\<close>

record PendingFrame =
  frame_clientX :: rat
  frame_range :: DateRange
  frame_granularity :: granularity

record SlicerState =
  st_granularity :: granularity
  st_dragging :: "DragTarget option"
  st_raf :: "PendingFrame option"
  st_value :: "DateRange option"
  st_onChange :: "DateRange list"

datatype Event =
    PointerDown DragTarget
  | PointerMove rat
  | PointerUp
  | AnimationFrame
  | GranularityClick granularity

fun step ::
  "int \<Rightarrow> date \<Rightarrow> date \<Rightarrow> bool \<Rightarrow> DOMRect option \<Rightarrow> SlicerState \<Rightarrow> Event \<Rightarrow> SlicerState" where
  "step tz mn mx snap track st (PointerDown which) = st\<lparr>st_dragging := Some which\<rparr>"
| "step tz mn mx snap track st (PointerMove clientX) =
     (if st_dragging st = None \<or> track = None then st
      else st\<lparr>st_raf := Some
        \<lparr>frame_clientX = clientX,
         frame_range = normalizedRange tz mn mx (st_value st) snap (st_granularity st),
         frame_granularity = st_granularity st\<rparr>\<rparr>)"
| "step tz mn mx snap track st PointerUp = st\<lparr>st_dragging := None\<rparr>"
| "step tz mn mx snap track st AnimationFrame =
     (case st_raf st of
        None \<Rightarrow> st
      | Some f \<Rightarrow>
          (case moveCallback tz mn mx snap (frame_granularity f) (frame_range f) track
                  (st_dragging st) (frame_clientX f) of
             None \<Rightarrow> st\<lparr>st_raf := None\<rparr>
           | Some r \<Rightarrow>
               st\<lparr>st_raf := None, st_value := Some r, st_onChange := st_onChange st @ [r]\<rparr>))"
| "step tz mn mx snap track st (GranularityClick g) =
     (let r = handleGranularityChange tz mn mx
                (normalizedRange tz mn mx (st_value st) snap (st_granularity st)) g
      in st\<lparr>st_granularity := g, st_value := Some r, st_onChange := st_onChange st @ [r]\<rparr>)"

definition run ::
  "int \<Rightarrow> date \<Rightarrow> date \<Rightarrow> bool \<Rightarrow> DOMRect option \<Rightarrow> SlicerState \<Rightarrow> Event list \<Rightarrow> SlicerState" where
  "run tz mn mx snap track st evs = foldl (step tz mn mx snap track) st evs"

text \<open>The state after mounting: nothing dragged, no frame requested, nothing committed.\<close>

definition mounted :: "granularity \<Rightarrow> DateRange option \<Rightarrow> SlicerState" where
  "mounted granularityProp val =
     \<lparr>st_granularity = granularityProp, st_dragging = None, st_raf = None,
      st_value = val, st_onChange = []\<rparr>"

subsection \<open>The normalizer as the specification words it\<close>

text \<open>
  Section 4.2 of the specification: clamp both ends, swap if inverted, and under
  \<open>snap\<close> floor the start, ceil the end, clamp both again and swap again if
  inverted. It is compared with \<open>normalizedRange\<close> and \<open>commitDrag\<close> below.
\<close>

definition normalize_spec ::
  "int \<Rightarrow> date \<Rightarrow> date \<Rightarrow> DateRange \<Rightarrow> bool \<Rightarrow> granularity \<Rightarrow> DateRange" where
  "normalize_spec tz mn mx raw snap g =
     (let s = clampDate (range_start raw) mn mx;
          e = clampDate (range_end raw) mn mx;
          (s, e) = (if s > e then (e, s) else (s, e));
          (s, e) = (if snap
                    then (let s = clampDate (floorToGranularity tz s g) mn mx;
                              e = clampDate (ceilToGranularity tz e g) mn mx
                          in if s > e then (e, s) else (s, e))
                    else (s, e))
      in \<lparr>range_start = s, range_end = e\<rparr>)"

subsection \<open>Auxiliaries for the proofs\<close>

text \<open>
  The first two steps that \<open>normalizedRange\<close> and \<open>normalize_spec\<close> share: both ends
  clamped, then swapped if inverted.
\<close>

definition ordered_ends :: "date \<Rightarrow> date \<Rightarrow> DateRange \<Rightarrow> date \<times> date" where
  "ordered_ends mn mx raw =
     (let s = clampDate (range_start raw) mn mx; e = clampDate (range_end raw) mn mx
      in if s > e then (e, s) else (s, e))"

text \<open>The track, where there is one, has a positive width.\<close>

definition has_width :: "DOMRect option \<Rightarrow> bool" where
  "has_width track = (case track of None \<Rightarrow> True | Some rect \<Rightarrow> 0 < rect_width rect)"

text \<open>The invariant of a range: \<open>min \<le> start \<le> end \<le> max\<close>.\<close>

definition within_bounds :: "date \<Rightarrow> date \<Rightarrow> DateRange \<Rightarrow> bool" where
  "within_bounds mn mx r \<longleftrightarrow> mn \<le> range_start r \<and> range_start r \<le> range_end r \<and> range_end r \<le> mx"

subsection \<open>Writing dates down\<close>

text \<open>
  \<open>civil y m d\<close> is midnight UTC of day \<open>d\<close> of month \<open>m\<close> (from 0) of year \<open>y\<close>, for
  stating examples; with \<open>tz = 0\<close> it is local midnight.
\<close>

definition civil :: "int \<Rightarrow> int \<Rightarrow> int \<Rightarrow> date" where
  "civil y m dt = MakeDate (MakeDay y m dt) 0"

definition noon :: int where
  "noon = 43200000"

section \<open>The calendar\<close>

lemma msPerDay_pos: "0 < msPerDay"
  by (simp add: msPerDay_def)

lemma div_bounds: "0 < k \<Longrightarrow> k * (x div k) \<le> (x::int) \<and> x < k * (x div k) + k"
  using mult_div_mod_eq [of k x] pos_mod_sign [of k x] pos_mod_bound [of k x] by linarith

text \<open>A year has 146097/400 days on average; \<open>DayFromYear\<close> stays within two days of it.\<close>

lemma DayFromYear_lower: "146097 * (y - 1970) - 506 \<le> 400 * DayFromYear y"
proof -
  define a where "a = (y - 1969) div 4"
  define b where "b = (y - 1901) div 100"
  define c where "c = (y - 1601) div 400"
  have "y - 1969 < 4 * a + 4" "100 * b \<le> y - 1901" "y - 1601 < 400 * c + 400"
    unfolding a_def b_def c_def
    using div_bounds [of 4 "y - 1969"] div_bounds [of 100 "y - 1901"]
      div_bounds [of 400 "y - 1601"]
    by simp_all
  then show ?thesis
    unfolding DayFromYear_def a_def [symmetric] b_def [symmetric] c_def [symmetric]
    by (simp add: algebra_simps)
qed

lemma DayFromYear_upper: "400 * DayFromYear y \<le> 146097 * (y - 1970) + 589"
proof -
  define a where "a = (y - 1969) div 4"
  define b where "b = (y - 1901) div 100"
  define c where "c = (y - 1601) div 400"
  have "4 * a \<le> y - 1969" "y - 1901 < 100 * b + 100" "400 * c \<le> y - 1601"
    unfolding a_def b_def c_def
    using div_bounds [of 4 "y - 1969"] div_bounds [of 100 "y - 1901"]
      div_bounds [of 400 "y - 1601"]
    by simp_all
  then show ?thesis
    unfolding DayFromYear_def a_def [symmetric] b_def [symmetric] c_def [symmetric]
    by (simp add: algebra_simps)
qed

lemma DayFromYear_strict_mono: "y < y' \<Longrightarrow> DayFromYear y < DayFromYear y'"
  using DayFromYear_lower [of y'] DayFromYear_upper [of y] by (simp add: algebra_simps)

lemma DayFromYear_mono: "y \<le> y' \<Longrightarrow> DayFromYear y \<le> DayFromYear y'"
  using DayFromYear_strict_mono [of y y'] by (cases "y = y'") auto

text \<open>\<open>YearFromDay n\<close> is the year whose days include \<open>n\<close>, and the only one.\<close>

lemma YearFromDay_bounds:
  "DayFromYear (YearFromDay n) \<le> n \<and> n < DayFromYear (YearFromDay n + 1)"
proof -
  define e where "e = (400 * n) div 146097"
  have e: "146097 * e \<le> 400 * n" "400 * n < 146097 * e + 146097"
    unfolding e_def using div_bounds [of 146097 "400 * n"] by simp_all
  have lo: "DayFromYear (1970 + e - 1) \<le> n"
    using DayFromYear_upper [of "1970 + e - 1"] e by (simp add: algebra_simps)
  have hi: "n < DayFromYear (1970 + e + 1 + 1)"
    using DayFromYear_lower [of "1970 + e + 1 + 1"] e by (simp add: algebra_simps)
  show ?thesis
    unfolding YearFromDay_def e_def [symmetric] Let_def
    using lo hi by auto
qed

lemma YearFromDay_unique:
  assumes "DayFromYear y \<le> n" and "n < DayFromYear (y + 1)"
  shows "YearFromDay n = y"
proof (rule ccontr)
  assume ne: "YearFromDay n \<noteq> y"
  have b: "DayFromYear (YearFromDay n) \<le> n" "n < DayFromYear (YearFromDay n + 1)"
    using YearFromDay_bounds by auto
  show False
  proof (cases "YearFromDay n < y")
    case True
    then have "DayFromYear (YearFromDay n + 1) \<le> DayFromYear y"
      by (intro DayFromYear_mono) simp
    with b assms show False by linarith
  next
    case False
    with ne have "DayFromYear (y + 1) \<le> DayFromYear (YearFromDay n)"
      by (intro DayFromYear_mono) simp
    with b assms show False by linarith
  qed
qed

lemma YearFromDay_mono: "n \<le> n' \<Longrightarrow> YearFromDay n \<le> YearFromDay n'"
proof (rule ccontr)
  assume le: "n \<le> n'" and "\<not> YearFromDay n \<le> YearFromDay n'"
  then have "DayFromYear (YearFromDay n' + 1) \<le> DayFromYear (YearFromDay n)"
    by (intro DayFromYear_mono) simp
  with YearFromDay_bounds [of n] YearFromDay_bounds [of n'] le show False by linarith
qed

section \<open>Months and days\<close>

lemma InLeapYear_cases: "InLeapYear y = 0 \<or> InLeapYear y = 1"
  by (simp add: InLeapYear_def)

lemma MonthFromDayInYear_range: "0 \<le> MonthFromDayInYear l d \<and> MonthFromDayInYear l d \<le> 11"
  by (simp add: MonthFromDayInYear_def)

lemma month_cases:
  "0 \<le> m \<Longrightarrow> m \<le> 11 \<Longrightarrow>
   m = 0 \<or> m = 1 \<or> m = 2 \<or> m = 3 \<or> m = 4 \<or> m = 5 \<or> m = 6 \<or> m = 7 \<or> m = 8 \<or> m = 9 \<or> m = 10 \<or> m = (11::int)"
  by presburger

lemma DaysBeforeMonth_le:
  "0 \<le> l \<Longrightarrow> 0 \<le> d \<Longrightarrow> DaysBeforeMonth l (MonthFromDayInYear l d) \<le> d"
  by (simp add: DaysBeforeMonth_def MonthFromDayInYear_def)

lemma DaysBeforeMonth_gt:
  "MonthFromDayInYear l d < 11 \<Longrightarrow> d < DaysBeforeMonth l (MonthFromDayInYear l d + 1)"
  by (simp add: DaysBeforeMonth_def MonthFromDayInYear_def split: if_splits)

lemma DaysBeforeMonth_mono:
  "0 \<le> l \<Longrightarrow> 0 \<le> m \<Longrightarrow> m \<le> m' \<Longrightarrow> m' \<le> 11 \<Longrightarrow> DaysBeforeMonth l m \<le> DaysBeforeMonth l m'"
  using month_cases [of m] month_cases [of m']
  by (auto simp: DaysBeforeMonth_def)

lemma MonthFromDayInYear_first:
  "0 \<le> l \<Longrightarrow> l \<le> 1 \<Longrightarrow> 0 \<le> m \<Longrightarrow> m \<le> 11 \<Longrightarrow> MonthFromDayInYear l (DaysBeforeMonth l m) = m"
  using month_cases [of m]
  by (auto simp: DaysBeforeMonth_def MonthFromDayInYear_def)


lemma MakeDay_in_year:
  "0 \<le> m \<Longrightarrow> m \<le> 11 \<Longrightarrow> MakeDay y m dt = DayFromYear y + DaysBeforeMonth (InLeapYear y) m + dt - 1"
  by (simp add: MakeDay_def Let_def)

lemma YearFromDay_range: "0 \<le> DayWithinYear n"
  using YearFromDay_bounds [of n] by (simp add: DayWithinYear_def)

lemma MonthFromDay_range: "0 \<le> MonthFromDay n \<and> MonthFromDay n \<le> 11"
  by (simp add: MonthFromDay_def MonthFromDayInYear_range)

lemma DateFromDay_pos: "1 \<le> DateFromDay n"
  using DaysBeforeMonth_le [of "InLeapYear (YearFromDay n)" "DayWithinYear n"]
    InLeapYear_cases [of "YearFromDay n"] YearFromDay_range [of n]
  by (auto simp: DateFromDay_def MonthFromDay_def)

text \<open>Year, month and date of a day make the day again.\<close>

lemma MakeDay_of_fields: "MakeDay (YearFromDay n) (MonthFromDay n) (DateFromDay n + k) = n + k"
  using MonthFromDay_range [of n]
  by (simp add: MakeDay_in_year DateFromDay_def DayWithinYear_def)

lemma newDate_plain:
  "\<not> (0 \<le> y \<and> y \<le> 99) \<Longrightarrow> newDate tz y m dt = MakeDay y m dt * msPerDay - tz"
  by (auto simp: newDate_def UTC_def MakeDate_def)

lemma DayNumber_midnight: "DayNumber (LocalTime tz (k * msPerDay - tz)) = k"
  using msPerDay_pos by (simp add: DayNumber_def LocalTime_def)

lemma day_start_le: "DayNumber (LocalTime tz d) * msPerDay - tz \<le> d"
  using div_bounds [OF msPerDay_pos, of "d + tz"]
  by (simp add: DayNumber_def LocalTime_def mult.commute)

lemma day_end_gt: "d < (DayNumber (LocalTime tz d) + 1) * msPerDay - tz"
  using div_bounds [OF msPerDay_pos, of "d + tz"]
  by (simp add: DayNumber_def LocalTime_def algebra_simps)

lemma midnight_mono: "k \<le> k' \<Longrightarrow> k * msPerDay - tz \<le> k' * msPerDay - tz"
  using msPerDay_pos by simp

text \<open>The first day of the month, of the quarter and of the year of a day \<open>n\<close>.\<close>

lemma month_start_le: "MakeDay (YearFromDay n) (MonthFromDay n) 1 \<le> n"
  using MakeDay_of_fields [of n 0] DateFromDay_pos [of n] MonthFromDay_range [of n]
  by (simp add: MakeDay_in_year)

lemma quarter_start_le: "MakeDay (YearFromDay n) (MonthFromDay n div 3 * 3) 1 \<le> n"
proof -
  let ?m = "MonthFromDay n" and ?l = "InLeapYear (YearFromDay n)"
  have m: "0 \<le> ?m" "?m \<le> 11" using MonthFromDay_range by auto
  then have q: "0 \<le> ?m div 3 * 3" "?m div 3 * 3 \<le> ?m" by presburger+
  with m have "DaysBeforeMonth ?l (?m div 3 * 3) \<le> DaysBeforeMonth ?l ?m"
    using InLeapYear_cases [of "YearFromDay n"] by (intro DaysBeforeMonth_mono) auto
  with month_start_le [of n] m q show ?thesis
    by (simp add: MakeDay_in_year)
qed

lemma year_start_le: "MakeDay (YearFromDay n) 0 1 \<le> n"
  using YearFromDay_bounds [of n] by (simp add: MakeDay_in_year DaysBeforeMonth_def)

lemma floor_le:
  assumes "100 \<le> getFullYear tz d"
  shows "floorToGranularity tz d g \<le> d"
proof -
  let ?n = "DayNumber (LocalTime tz d)"
  have y: "\<not> (0 \<le> YearFromDay ?n \<and> YearFromDay ?n \<le> 99)"
    using assms by (simp add: getFullYear_def)
  have "floorToGranularity tz d g \<le> ?n * msPerDay - tz"
  proof (cases g)
    case Day
    then show ?thesis
      using y MakeDay_of_fields [of ?n 0]
      by (simp add: newDate_plain getFullYear_def getMonth_def getDate_def)
  next
    case Month
    then show ?thesis
      using y midnight_mono [OF month_start_le [of ?n]]
      by (simp add: newDate_plain getFullYear_def getMonth_def)
  next
    case Quarter
    then show ?thesis
      using y midnight_mono [OF quarter_start_le [of ?n]]
      by (simp add: newDate_plain getFullYear_def getMonth_def)
  next
    case Year
    then show ?thesis
      using y midnight_mono [OF year_start_le [of ?n]]
      by (simp add: newDate_plain getFullYear_def)
  qed
  with day_start_le [of tz d] show ?thesis by linarith
qed

lemma DaysBeforeMonth_nonneg: "0 \<le> l \<Longrightarrow> 0 \<le> m \<Longrightarrow> m \<le> 11 \<Longrightarrow> 0 \<le> DaysBeforeMonth l m"
  using DaysBeforeMonth_mono [of l 0 m] by (simp add: DaysBeforeMonth_def)

text \<open>
  The first of a month \<open>m\<close> not after the month of day \<open>n\<close>, in the year of \<open>n\<close>, is
  read back as that year and that month.
\<close>

lemma fields_of_month_start:
  assumes "0 \<le> m" and "m \<le> MonthFromDay n"
  shows "YearFromDay (MakeDay (YearFromDay n) m 1) = YearFromDay n
       \<and> MonthFromDay (MakeDay (YearFromDay n) m 1) = m"
proof -
  let ?y = "YearFromDay n" and ?l = "InLeapYear (YearFromDay n)"
  have l: "0 \<le> ?l" "?l \<le> 1" using InLeapYear_cases [of ?y] by auto
  have m: "m \<le> 11" using assms MonthFromDay_range [of n] by linarith
  have F: "MakeDay ?y m 1 = DayFromYear ?y + DaysBeforeMonth ?l m"
    using assms m by (simp add: MakeDay_in_year)
  have "DaysBeforeMonth ?l m \<le> DaysBeforeMonth ?l (MonthFromDay n)"
    using assms l MonthFromDay_range [of n] by (intro DaysBeforeMonth_mono) auto
  moreover have "DayFromYear ?y + DaysBeforeMonth ?l (MonthFromDay n) \<le> n"
    using month_start_le [of n] MonthFromDay_range [of n] by (simp add: MakeDay_in_year)
  moreover have "0 \<le> DaysBeforeMonth ?l m"
    using assms l m by (intro DaysBeforeMonth_nonneg) auto
  ultimately have yr: "YearFromDay (MakeDay ?y m 1) = ?y"
    using YearFromDay_bounds [of n] unfolding F by (intro YearFromDay_unique) linarith+
  have "MonthFromDay (MakeDay ?y m 1) = MonthFromDayInYear ?l (DaysBeforeMonth ?l m)"
    unfolding MonthFromDay_def DayWithinYear_def yr by (simp add: F)
  also have "\<dots> = m"
    using assms l m by (intro MonthFromDayInYear_first) auto
  finally show ?thesis using yr by simp
qed

lemma next_month_gt: "n < MakeDay (YearFromDay n) (MonthFromDay n + 1) 1"
proof (cases "MonthFromDay n < 11")
  case True
  then show ?thesis
    using DaysBeforeMonth_gt [of "InLeapYear (YearFromDay n)" "DayWithinYear n"]
      MonthFromDay_range [of n]
    by (simp add: MakeDay_in_year MonthFromDay_def DayWithinYear_def)
next
  case False
  then have "MonthFromDay n = 11" using MonthFromDay_range [of n] by linarith
  then show ?thesis
    using YearFromDay_bounds [of n] by (simp add: MakeDay_def DaysBeforeMonth_def)
qed

lemma next_quarter_gt: "n < MakeDay (YearFromDay n) (MonthFromDay n div 3 * 3 + 3) 1"
proof (cases "MonthFromDay n < 9")
  case True
  let ?m = "MonthFromDay n" and ?l = "InLeapYear (YearFromDay n)"
  have m: "0 \<le> ?m" using MonthFromDay_range by auto
  with True have q: "?m + 1 \<le> ?m div 3 * 3 + 3" "?m div 3 * 3 + 3 \<le> 11" by presburger+
  with m have "DaysBeforeMonth ?l (?m + 1) \<le> DaysBeforeMonth ?l (?m div 3 * 3 + 3)"
    using InLeapYear_cases [of "YearFromDay n"] by (intro DaysBeforeMonth_mono) auto
  moreover have "0 \<le> ?m div 3 * 3 + 3" using m q by linarith
  ultimately show ?thesis
    using next_month_gt [of n] True m q by (simp add: MakeDay_in_year)
next
  case False
  then have "MonthFromDay n div 3 * 3 + 3 = 12" using MonthFromDay_range [of n] by presburger
  then show ?thesis
    using YearFromDay_bounds [of n] by (simp add: MakeDay_def DaysBeforeMonth_def)
qed

lemma next_year_gt: "n < MakeDay (YearFromDay n + 1) 0 1"
  using YearFromDay_bounds [of n] by (simp add: MakeDay_in_year DaysBeforeMonth_def)

lemma floor_plain:
  assumes "100 \<le> getFullYear tz d"
  shows "floorToGranularity tz d g =
     (let n = DayNumber (LocalTime tz d)
      in (case g of
            Day \<Rightarrow> n
          | Month \<Rightarrow> MakeDay (YearFromDay n) (MonthFromDay n) 1
          | Quarter \<Rightarrow> MakeDay (YearFromDay n) (MonthFromDay n div 3 * 3) 1
          | Year \<Rightarrow> MakeDay (YearFromDay n) 0 1) * msPerDay - tz)"
proof -
  have y: "\<not> (0 \<le> getFullYear tz d \<and> getFullYear tz d \<le> 99)" using assms by simp
  show ?thesis
    using MakeDay_of_fields [of "DayNumber (LocalTime tz d)" 0]
    by (cases g) (simp_all add: newDate_plain [OF y] Let_def, simp_all add: getFullYear_def getMonth_def getDate_def)
qed

lemma ceil_plain:
  assumes "100 \<le> getFullYear tz d" and "floorToGranularity tz d g \<noteq> d"
  shows "ceilToGranularity tz d g =
     (let n = DayNumber (LocalTime tz d)
      in (case g of
            Day \<Rightarrow> n + 1
          | Month \<Rightarrow> MakeDay (YearFromDay n) (MonthFromDay n + 1) 1
          | Quarter \<Rightarrow> MakeDay (YearFromDay n) (MonthFromDay n div 3 * 3 + 3) 1
          | Year \<Rightarrow> MakeDay (YearFromDay n + 1) 0 1) * msPerDay - tz)"
proof -
  let ?n = "DayNumber (LocalTime tz d)"
  let ?y = "YearFromDay ?n" and ?m = "MonthFromDay ?n"
  have y: "\<not> (0 \<le> ?y \<and> ?y \<le> 99)" "\<not> (0 \<le> ?y + 1 \<and> ?y + 1 \<le> 99)"
    using assms by (simp_all add: getFullYear_def)
  have m: "0 \<le> ?m" "(0::int) \<le> ?m div 3 * 3" "?m div 3 * 3 \<le> ?m"
    using MonthFromDay_range [of ?n] by presburger+
  show ?thesis
  proof (cases g)
    case Day
    then show ?thesis
      using assms(2) y MakeDay_of_fields [of ?n 1]
      by (simp add: ceilToGranularity_def Let_def newDate_plain getFullYear_def getMonth_def getDate_def)
  next
    case Month
    have "getFullYear tz (floorToGranularity tz d Month) = ?y"
      "getMonth tz (floorToGranularity tz d Month) = ?m"
      using fields_of_month_start [of ?m ?n] m y
      by (simp_all add: newDate_plain getFullYear_def getMonth_def DayNumber_midnight)
    with Month show ?thesis
      using assms(2) y by (simp add: ceilToGranularity_def Let_def newDate_plain)
  next
    case Quarter
    have "getFullYear tz (floorToGranularity tz d Quarter) = ?y"
      "getMonth tz (floorToGranularity tz d Quarter) = ?m div 3 * 3"
      using fields_of_month_start [of "?m div 3 * 3" ?n] m y
      by (simp_all add: newDate_plain getFullYear_def getMonth_def DayNumber_midnight)
    with Quarter show ?thesis
      using assms(2) y by (simp add: ceilToGranularity_def Let_def newDate_plain)
  next
    case Year
    have "getFullYear tz (floorToGranularity tz d Year) = ?y"
      using fields_of_month_start [of 0 ?n] m y
      by (simp_all add: newDate_plain getFullYear_def DayNumber_midnight)
    with Year show ?thesis
      using assms(2) y by (simp add: ceilToGranularity_def Let_def newDate_plain)
  qed
qed

lemma le_ceil:
  assumes "100 \<le> getFullYear tz d"
  shows "d \<le> ceilToGranularity tz d g"
proof (cases "floorToGranularity tz d g = d")
  case True
  then show ?thesis by (simp add: ceilToGranularity_def)
next
  case False
  let ?n = "DayNumber (LocalTime tz d)"
  have "(?n + 1) * msPerDay - tz \<le> ceilToGranularity tz d g"
    unfolding ceil_plain [OF assms False] Let_def
    using next_month_gt [of ?n] next_quarter_gt [of ?n] next_year_gt [of ?n]
    by (cases g) (simp_all add: midnight_mono)
  with day_end_gt [of d tz] show ?thesis by linarith
qed


lemma getFullYear_mono: "d \<le> d' \<Longrightarrow> getFullYear tz d \<le> getFullYear tz d'"
  using msPerDay_pos
  by (simp add: getFullYear_def DayNumber_def LocalTime_def YearFromDay_mono zdiv_mono1)

section \<open>Fixed points of the floor\<close>

text \<open>A year has at least 364 days; so the first of each month lies within its year.\<close>

lemma DayFromYear_next: "DayFromYear y + 364 \<le> DayFromYear (y + 1)"
proof -
  define a where "a = (y - 1969) div 4"
  define a' where "a' = (y + 1 - 1969) div 4"
  define b where "b = (y - 1901) div 100"
  define b' where "b' = (y + 1 - 1901) div 100"
  define c where "c = (y - 1601) div 400"
  define c' where "c' = (y + 1 - 1601) div 400"
  have "a \<le> a'" "c \<le> c'"
    unfolding a_def a'_def c_def c'_def by (simp_all add: zdiv_mono1)
  moreover have "b' \<le> (y - 1901 + 100) div 100"
    unfolding b'_def by (intro zdiv_mono1) simp_all
  then have "b' \<le> b + 1" unfolding b_def by simp
  ultimately have "365 * (y - 1970) + a - b + c + 364 \<le> 365 * (y + 1 - 1970) + a' - b' + c'"
    by (simp add: algebra_simps)
  then show ?thesis
    unfolding DayFromYear_def a_def a'_def b_def b'_def c_def c'_def .
qed

lemma DaysBeforeMonth_upper: "l \<le> 1 \<Longrightarrow> DaysBeforeMonth l m \<le> 335"
  by (simp add: DaysBeforeMonth_def)

lemma fields_of_first:
  assumes "0 \<le> m" and "m \<le> 11"
  shows "YearFromDay (MakeDay y m 1) = y \<and> MonthFromDay (MakeDay y m 1) = m"
proof -
  let ?l = "InLeapYear y"
  have l: "0 \<le> ?l" "?l \<le> 1" using InLeapYear_cases [of y] by auto
  have F: "MakeDay y m 1 = DayFromYear y + DaysBeforeMonth ?l m"
    using assms by (simp add: MakeDay_in_year)
  have "0 \<le> DaysBeforeMonth ?l m" "DaysBeforeMonth ?l m \<le> 335"
    using assms l by (simp_all add: DaysBeforeMonth_nonneg DaysBeforeMonth_upper)
  then have yr: "YearFromDay (MakeDay y m 1) = y"
    using DayFromYear_next [of y] unfolding F by (intro YearFromDay_unique) linarith+
  have "MonthFromDay (MakeDay y m 1) = MonthFromDayInYear ?l (DaysBeforeMonth ?l m)"
    unfolding MonthFromDay_def DayWithinYear_def yr by (simp add: F)
  also have "\<dots> = m"
    using assms l by (intro MonthFromDayInYear_first) auto
  finally show ?thesis using yr by simp
qed

text \<open>
  From year 100 on, local midnight of the first of a month is a fixed point of
  \<open>floorToGranularity\<close> for days and months, for quarters when the month starts one,
  and for years when it is January.
\<close>

lemma first_is_fixed:
  assumes "100 \<le> y" and "0 \<le> m" and "m \<le> 11"
    and "g = Day \<or> g = Month \<or> g = Quarter \<and> m mod 3 = 0 \<or> g = Year \<and> m = 0"
  shows "floorToGranularity tz (MakeDay y m 1 * msPerDay - tz) g = MakeDay y m 1 * msPerDay - tz"
proof -
  let ?d = "MakeDay y m 1 * msPerDay - tz"
  have n: "DayNumber (LocalTime tz ?d) = MakeDay y m 1" by (rule DayNumber_midnight)
  have f: "YearFromDay (MakeDay y m 1) = y" "MonthFromDay (MakeDay y m 1) = m"
    using fields_of_first [OF assms(2,3)] by simp_all
  have yr: "100 \<le> getFullYear tz ?d" using assms(1) by (simp add: getFullYear_def n f)
  have q: "m mod 3 = 0 \<Longrightarrow> m div 3 * 3 = m" by presburger
  note fp = floor_plain [OF yr, of g, unfolded Let_def n f]
  show ?thesis
    using assms(4) q fp by (cases g) (auto simp del: floorToGranularity.simps)
qed

lemma day_is_fixed:
  assumes "100 \<le> YearFromDay k"
  shows "floorToGranularity tz (k * msPerDay - tz) Day = k * msPerDay - tz"
proof -
  have "100 \<le> getFullYear tz (k * msPerDay - tz)"
    using assms by (simp add: getFullYear_def DayNumber_midnight)
  from floor_plain [OF this, of Day] show ?thesis
    by (simp add: Let_def DayNumber_midnight del: floorToGranularity.simps)
qed

lemma floor_idem:
  assumes "100 \<le> getFullYear tz d"
  shows "floorToGranularity tz (floorToGranularity tz d g) g = floorToGranularity tz d g"
proof -
  let ?n = "DayNumber (LocalTime tz d)"
  have y: "100 \<le> YearFromDay ?n" using assms by (simp add: getFullYear_def)
  have m: "0 \<le> MonthFromDay ?n" "MonthFromDay ?n \<le> 11"
    "0 \<le> MonthFromDay ?n div 3 * 3" "MonthFromDay ?n div 3 * 3 \<le> 11"
    "(MonthFromDay ?n div 3 * 3) mod 3 = 0"
    using MonthFromDay_range [of ?n] by presburger+
  show ?thesis
  proof (cases g)
    case Day
    then show ?thesis using day_is_fixed [OF y] by (simp add: floor_plain [OF assms] Let_def del: floorToGranularity.simps)
  next
    case Month
    then show ?thesis
      using first_is_fixed [OF y m(1,2), of Month] by (simp add: floor_plain [OF assms] Let_def del: floorToGranularity.simps)
  next
    case Quarter
    then show ?thesis
      using first_is_fixed [OF y m(3,4), of Quarter] m(5)
      by (simp add: floor_plain [OF assms] Let_def del: floorToGranularity.simps)
  next
    case Year
    then show ?thesis
      using first_is_fixed [OF y, of 0 Year] by (simp add: floor_plain [OF assms] Let_def del: floorToGranularity.simps)
  qed
qed

lemma MakeDay_month_12: "MakeDay y 12 1 = MakeDay (y + 1) 0 1"
  by (simp add: MakeDay_def)

lemma floor_of_ceil:
  assumes "100 \<le> getFullYear tz d"
  shows "floorToGranularity tz (ceilToGranularity tz d g) g = ceilToGranularity tz d g"
proof (cases "floorToGranularity tz d g = d")
  case True
  then show ?thesis by (simp add: ceilToGranularity_def)
next
  case False
  let ?n = "DayNumber (LocalTime tz d)"
  let ?y = "YearFromDay ?n" and ?m = "MonthFromDay ?n"
  have y: "100 \<le> ?y" "100 \<le> ?y + 1" using assms by (simp_all add: getFullYear_def)
  have m: "0 \<le> ?m" "?m \<le> 11" using MonthFromDay_range [of ?n] by auto
  note c = ceil_plain [OF assms False, unfolded Let_def]
  show ?thesis
  proof (cases g)
    case Day
    have "100 \<le> YearFromDay (?n + 1)" using y(1) YearFromDay_mono [of ?n "?n + 1"] by linarith
    from day_is_fixed [OF this] Day show ?thesis unfolding c by (simp del: floorToGranularity.simps)
  next
    case Month
    show ?thesis
    proof (cases "?m = 11")
      case True
      with Month first_is_fixed [OF y(2), of 0 Month] show ?thesis
        unfolding c by (simp add: MakeDay_month_12 del: floorToGranularity.simps)
    next
      case False
      with m have "0 \<le> ?m + 1" "?m + 1 \<le> 11" by linarith+
      from first_is_fixed [OF y(1) this, of Month] Month show ?thesis
        unfolding c by (simp del: floorToGranularity.simps)
    qed
  next
    case Quarter
    show ?thesis
    proof (cases "?m div 3 * 3 + 3 = 12")
      case True
      with Quarter first_is_fixed [OF y(2), of 0 Quarter] show ?thesis
        unfolding c by (simp add: MakeDay_month_12 del: floorToGranularity.simps)
    next
      case False
      with m have "0 \<le> ?m div 3 * 3 + 3" "?m div 3 * 3 + 3 \<le> 11" "(?m div 3 * 3 + 3) mod 3 = 0"
        by presburger+
      from first_is_fixed [OF y(1) this(1,2), of Quarter] this(3) Quarter show ?thesis
        unfolding c by (simp del: floorToGranularity.simps)
    qed
  next
    case Year
    with first_is_fixed [OF y(2), of 0 Year] show ?thesis
      unfolding c by (simp del: floorToGranularity.simps)
  qed
qed

section \<open>Clamping and the normalized range\<close>

lemma clampDate_bounds: "mn \<le> mx \<Longrightarrow> mn \<le> clampDate d mn mx \<and> clampDate d mn mx \<le> mx"
  by (simp add: clampDate_def)

lemma clampDate_mono: "mn \<le> mx \<Longrightarrow> a \<le> b \<Longrightarrow> clampDate a mn mx \<le> clampDate b mn mx"
  by (simp add: clampDate_def)

lemma clampDate_id: "mn \<le> d \<Longrightarrow> d \<le> mx \<Longrightarrow> clampDate d mn mx = d"
  by (simp add: clampDate_def)

text \<open>From year 100 on, snapping an ordered pair keeps it ordered, also after clamping.\<close>

lemma snap_keeps_order:
  assumes "mn \<le> mx" and "100 \<le> getFullYear tz mn" and "mn \<le> s" and "s \<le> e"
  shows "clampDate (floorToGranularity tz s g) mn mx \<le> clampDate (ceilToGranularity tz e g) mn mx"
proof -
  have "100 \<le> getFullYear tz s" "100 \<le> getFullYear tz e"
    using assms getFullYear_mono [of mn s tz] getFullYear_mono [of mn e tz] by linarith+
  then have "floorToGranularity tz s g \<le> s" "e \<le> ceilToGranularity tz e g"
    by (simp_all add: floor_le le_ceil)
  with assms show ?thesis by (intro clampDate_mono) linarith+
qed

lemma ordered_ends_bounds:
  assumes "mn \<le> mx"
  shows "mn \<le> fst (ordered_ends mn mx raw) \<and> fst (ordered_ends mn mx raw) \<le> snd (ordered_ends mn mx raw)
       \<and> snd (ordered_ends mn mx raw) \<le> mx"
  using clampDate_bounds [OF assms, of "range_start raw"] clampDate_bounds [OF assms, of "range_end raw"]
  by (auto simp: ordered_ends_def Let_def)

lemma normalizedRange_ends:
  "normalizedRange tz mn mx val snap g =
     (let (s, e) = ordered_ends mn mx (range_of_value mn mx val)
      in if snap
         then \<lparr>range_start = clampDate (floorToGranularity tz s g) mn mx,
               range_end = clampDate (ceilToGranularity tz e g) mn mx\<rparr>
         else \<lparr>range_start = s, range_end = e\<rparr>)"
  by (simp add: normalizedRange_def ordered_ends_def Let_def)

lemma normalize_spec_ends:
  "normalize_spec tz mn mx raw snap g =
     (let (s, e) = ordered_ends mn mx raw
      in if snap
         then (let s' = clampDate (floorToGranularity tz s g) mn mx;
                   e' = clampDate (ceilToGranularity tz e g) mn mx
               in if s' > e' then \<lparr>range_start = e', range_end = s'\<rparr>
                  else \<lparr>range_start = s', range_end = e'\<rparr>)
         else \<lparr>range_start = s, range_end = e\<rparr>)"
  by (simp add: normalize_spec_def ordered_ends_def Let_def)

lemma normalizedRange_is_spec:
  assumes "mn \<le> mx" and "100 \<le> getFullYear tz mn"
  shows "normalizedRange tz mn mx val snap g
       = normalize_spec tz mn mx (range_of_value mn mx val) snap g"
proof -
  obtain s e where se: "ordered_ends mn mx (range_of_value mn mx val) = (s, e)"
    by (cases "ordered_ends mn mx (range_of_value mn mx val)")
  with ordered_ends_bounds [OF assms(1), of "range_of_value mn mx val"]
  have "mn \<le> s" "s \<le> e" by simp_all
  then have "clampDate (floorToGranularity tz s g) mn mx \<le> clampDate (ceilToGranularity tz e g) mn mx"
    using assms by (intro snap_keeps_order)
  then show ?thesis
    by (simp add: normalizedRange_ends normalize_spec_ends se Let_def)
qed

lemma commitDrag_is_spec:
  assumes "mn \<le> range_start raw" "range_start raw \<le> mx" "mn \<le> range_end raw" "range_end raw \<le> mx"
  shows "commitDrag tz mn mx snap g (range_start raw) (range_end raw) = normalize_spec tz mn mx raw snap g"
  using assms
  by (simp add: commitDrag_def normalize_spec_def clampDate_id Let_def)

section \<open>Numbers to dates, and the band drag without snapping\<close>









section \<open>What is committed\<close>

text \<open>
  A committed drag lies within the bounds and is ordered, whatever was proposed: the
  last steps of \<open>commitDrag\<close> clamp and swap.
\<close>

lemma commitDrag_within:
  assumes "mn \<le> mx"
  shows "mn \<le> range_start (commitDrag tz mn mx snap g a b)
       \<and> range_start (commitDrag tz mn mx snap g a b) \<le> range_end (commitDrag tz mn mx snap g a b)
       \<and> range_end (commitDrag tz mn mx snap g a b) \<le> mx"
proof -
  obtain s e where se: "(if snap
      then (floorToGranularity tz (if a > b then b else a) g, ceilToGranularity tz (if a > b then a else b) g)
      else (if a > b then b else a, if a > b then a else b)) = (s, e)"
    by (cases "if snap
      then (floorToGranularity tz (if a > b then b else a) g, ceilToGranularity tz (if a > b then a else b) g)
      else (if a > b then b else a, if a > b then a else b)") auto
  have "commitDrag tz mn mx snap g a b =
      (if clampDate s mn mx > clampDate e mn mx
       then \<lparr>range_start = clampDate e mn mx, range_end = clampDate s mn mx\<rparr>
       else \<lparr>range_start = clampDate s mn mx, range_end = clampDate e mn mx\<rparr>)"
    using se by (auto simp: commitDrag_def Let_def split: if_splits)
  then show ?thesis
    using clampDate_bounds [OF assms, of s] clampDate_bounds [OF assms, of e] by auto
qed

text \<open>From year 100 on, the normalized range lies within the bounds and is ordered.\<close>

lemma normalizedRange_within:
  assumes "mn \<le> mx" and "100 \<le> getFullYear tz mn"
  shows "mn \<le> range_start (normalizedRange tz mn mx val snap g)
       \<and> range_start (normalizedRange tz mn mx val snap g) \<le> range_end (normalizedRange tz mn mx val snap g)
       \<and> range_end (normalizedRange tz mn mx val snap g) \<le> mx"
proof -
  obtain s e where se: "ordered_ends mn mx (range_of_value mn mx val) = (s, e)"
    by (cases "ordered_ends mn mx (range_of_value mn mx val)")
  with ordered_ends_bounds [OF assms(1), of "range_of_value mn mx val"]
  have b: "mn \<le> s" "s \<le> e" "e \<le> mx" by simp_all
  show ?thesis
    using b snap_keeps_order [OF assms b(1,2), of g]
      clampDate_bounds [OF assms(1), of "floorToGranularity tz s g"]
      clampDate_bounds [OF assms(1), of "ceilToGranularity tz e g"]
    by (simp add: normalizedRange_ends se)
qed

text \<open>From year 100 on, so does the range committed by a granularity switch.\<close>

lemma handleGranularityChange_within:
  assumes "mn \<le> mx" and "100 \<le> getFullYear tz mn"
    and "mn \<le> range_start nr" and "range_start nr \<le> range_end nr"
  shows "mn \<le> range_start (handleGranularityChange tz mn mx nr g)
       \<and> range_start (handleGranularityChange tz mn mx nr g) \<le> range_end (handleGranularityChange tz mn mx nr g)
       \<and> range_end (handleGranularityChange tz mn mx nr g) \<le> mx"
  using snap_keeps_order [OF assms, of g]
    clampDate_bounds [OF assms(1), of "floorToGranularity tz (range_start nr) g"]
    clampDate_bounds [OF assms(1), of "ceilToGranularity tz (range_end nr) g"]
  by (simp add: handleGranularityChange_def Let_def)

text \<open>A frame that runs when nothing is dragged commits nothing.\<close>

lemma frame_after_release:
  "st_dragging st = None \<Longrightarrow>
   st_onChange (step tz mn mx snap track st AnimationFrame) = st_onChange st"
  by (simp add: moveCallback_def Let_def split: option.splits)

lemma ceil_of_boundary: "floorToGranularity tz d g = d \<Longrightarrow> ceilToGranularity tz d g = d"
  by (simp add: ceilToGranularity_def)

section \<open>Granularity boundaries\<close>

lemma newDate_form:
  "newDate tz y m dt = MakeDay (if 0 \<le> y \<and> y \<le> 99 then 1900 + y else y) m dt * msPerDay - tz"
  by (simp add: newDate_def UTC_def MakeDate_def)

lemma TimeWithinDay_midnight: "TimeWithinDay (LocalTime tz (k * msPerDay - tz)) = 0"
  by (simp add: TimeWithinDay_def LocalTime_def)

lemma MakeDay_carry: "MakeDay y m dt = MakeDay (y + m div 12) (m mod 12) dt"
  by (simp add: MakeDay_def)

lemma date_of_first:
  assumes "0 \<le> m" and "m \<le> 11"
  shows "DateFromDay (MakeDay y m 1) = 1"
  using fields_of_first [OF assms, of y] assms
  by (simp add: DateFromDay_def DayWithinYear_def MakeDay_in_year)

text \<open>Local midnight of the first of any month, whatever the year, is on a boundary.\<close>

lemma first_in_year_on_boundary:
  assumes "0 \<le> r" and "r \<le> 11"
    and "g = Day \<or> g = Month \<or> g = Quarter \<and> r mod 3 = 0 \<or> g = Year \<and> r = 0"
  shows "on_boundary tz g (MakeDay y r 1 * msPerDay - tz)"
  using assms(3) fields_of_first [OF assms(1,2), of y] date_of_first [OF assms(1,2), of y]
  by (cases g)
    (auto simp: on_boundary_def TimeWithinDay_midnight getDate_def getMonth_def DayNumber_midnight)

lemma first_on_boundary:
  assumes "g = Day \<or> g = Month \<or> g = Quarter \<and> m mod 3 = 0 \<or> g = Year \<and> m mod 12 = 0"
  shows "on_boundary tz g (MakeDay y m 1 * msPerDay - tz)"
proof -
  have q: "m mod 3 = 0 \<Longrightarrow> m mod 12 mod 3 = 0" by presburger
  have "on_boundary tz g (MakeDay (y + m div 12) (m mod 12) 1 * msPerDay - tz)"
    using assms q by (intro first_in_year_on_boundary) auto
  then show ?thesis by (simp add: MakeDay_carry [of y m])
qed

lemma midnight_on_day_boundary: "on_boundary tz Day (k * msPerDay - tz)"
  by (simp add: on_boundary_def TimeWithinDay_midnight)

lemma floor_on_boundary: "on_boundary tz g (floorToGranularity tz d g)"
proof (cases g)
  case Day
  then show ?thesis by (simp add: newDate_form midnight_on_day_boundary)
next
  case Month
  then show ?thesis by (simp add: newDate_form first_on_boundary)
next
  case Quarter
  have "getMonth tz d div 3 * 3 mod 3 = 0" by simp
  with Quarter show ?thesis by (simp add: newDate_form first_on_boundary)
next
  case Year
  then show ?thesis by (simp add: newDate_form first_on_boundary)
qed




text \<open>
  A fixed point of \<open>floorToGranularity\<close> is on a boundary; from year 100 on the dates
  on a boundary are its fixed points.
\<close>

lemma fixed_on_boundary: "floorToGranularity tz d g = d \<Longrightarrow> on_boundary tz g d"
  using floor_on_boundary [of tz g d] by simp

lemma boundary_is_fixed:
  assumes "100 \<le> getFullYear tz d" and "on_boundary tz g d"
  shows "floorToGranularity tz d g = d"
proof -
  let ?n = "DayNumber (LocalTime tz d)"
  have "(d + tz) mod msPerDay = 0"
    using assms(2) by (simp add: on_boundary_def TimeWithinDay_def LocalTime_def)
  then have "d + tz = ?n * msPerDay"
    unfolding DayNumber_def LocalTime_def by (metis add.right_neutral div_mult_mod_eq)
  then have d: "d = ?n * msPerDay - tz" by simp
  have y: "100 \<le> YearFromDay ?n" using assms(1) by (simp add: getFullYear_def)
  have m: "0 \<le> MonthFromDay ?n" "MonthFromDay ?n \<le> 11" using MonthFromDay_range [of ?n] by auto
  show ?thesis
  proof (cases g)
    case Day
    with day_is_fixed [OF y, of tz] d show ?thesis by simp
  next
    case g: Month
    then have "DateFromDay ?n = 1" using assms(2) by (simp add: on_boundary_def getDate_def)
    with MakeDay_of_fields [of ?n 0] have n: "?n = MakeDay (YearFromDay ?n) (MonthFromDay ?n) 1"
      by simp
    from first_is_fixed [OF y m, of Month tz] g show ?thesis using d n by simp
  next
    case g: Quarter
    then have "DateFromDay ?n = 1" "MonthFromDay ?n mod 3 = 0"
      using assms(2) by (simp_all add: on_boundary_def getDate_def getMonth_def)
    with MakeDay_of_fields [of ?n 0] have n: "?n = MakeDay (YearFromDay ?n) (MonthFromDay ?n) 1"
      and q: "MonthFromDay ?n mod 3 = 0" by simp_all
    from first_is_fixed [OF y m, of Quarter tz] g q show ?thesis using d n by simp
  next
    case g: Year
    then have "DateFromDay ?n = 1" "MonthFromDay ?n = 0"
      using assms(2) by (simp_all add: on_boundary_def getDate_def getMonth_def)
    with MakeDay_of_fields [of ?n 0] have n: "?n = MakeDay (YearFromDay ?n) 0 1" by simp
    from first_is_fixed [OF y, of 0 Year tz] g show ?thesis using d n by simp
  qed
qed

section \<open>Every committed range\<close>

text \<open>
  From year 100 on and on a track of positive width, every range that an event
  passes to \<open>onChange\<close> lies within the bounds and is ordered, whatever the state; so
  do all ranges of a run.
\<close>

lemma step_commits_within:
  assumes "mn \<le> mx" and "100 \<le> getFullYear tz mn" and "has_width track"
    and "list_all (within_bounds mn mx) (st_onChange st)"
  shows "list_all (within_bounds mn mx) (st_onChange (step tz mn mx snap track st ev))"
proof (cases ev)
  case AnimationFrame
  have "within_bounds mn mx r"
    if "moveCallback tz mn mx snap g nr track dragging x = Some r" for g nr dragging x r
    using that commitDrag_within [OF assms(1)]
    by (auto simp: moveCallback_def bandDrag_def within_bounds_def Let_def
        split: option.splits DragTarget.splits)
  with AnimationFrame assms(4) show ?thesis
    by (auto split: option.splits)
next
  case (GranularityClick g)
  let ?nr = "normalizedRange tz mn mx (st_value st) snap (st_granularity st)"
  have "mn \<le> range_start ?nr" "range_start ?nr \<le> range_end ?nr"
    using normalizedRange_within [OF assms(1,2)] by simp_all
  from handleGranularityChange_within [OF assms(1,2) this, of g] GranularityClick assms(4)
  show ?thesis by (simp add: within_bounds_def Let_def)
qed (use assms(4) in auto)

lemma run_commits_within:
  assumes "mn \<le> mx" and "100 \<le> getFullYear tz mn" and "has_width track"
    and "list_all (within_bounds mn mx) (st_onChange st)"
  shows "list_all (within_bounds mn mx) (st_onChange (run tz mn mx snap track st evs))"
  using assms(4)
proof (induction evs arbitrary: st)
  case Nil
  then show ?case by (simp add: run_def)
next
  case (Cons ev evs)
  from Cons.IH [OF step_commits_within [OF assms(1,2,3) Cons.prems, of snap ev]]
  show ?case by (simp add: run_def)
qed

section \<open>Evaluating the calendar on given dates\<close>

lemmas date_defs = civil_def noon_def MakeDate_def MakeDay_def DayFromYear_def DaysBeforeMonth_def
  InLeapYear_def DaysInYear_def msPerDay_def newDate_def UTC_def getFullYear_def getMonth_def
  getDate_def LocalTime_def DayNumber_def YearFromDay_def MonthFromDay_def MonthFromDayInYear_def
  DateFromDay_def DayWithinYear_def

section \<open>The claims\<close>

subsection \<open>C1: the normalized range within the bounds and ordered\<close>

text \<open>
  Claim C1: for bounds with \<open>min \<le> max\<close>, both normalizations return a range with
  \<open>min \<le> start \<le> end \<le> max\<close>. \<open>commitDrag\<close> does, for every pair of dates (lemma
  \<open>commitDrag_within\<close>), and \<open>normalizedRange\<close> does from year 100 on (lemma
  \<open>normalizedRange_within\<close>). Before that the claim fails: \<open>floorToGranularity\<close>
  rebuilds the date with the three-argument \<open>Date\<close> constructor, which reads a year
  from 0 to 99 as 1900 + year, and \<open>normalizedRange\<close> does not swap again after its
  second clamp, as \<open>commitDrag\<close> does. With bounds from year 50 to year 150 and the
  value from 15 March 60 to 15 June 120, months snapped, the start is floored to
  1 March 1960 and clamped to \<open>max\<close>, the end becomes 1 July 120: the range returned
  starts after it ends.
\<close>

theorem normalizedRange_inverted_across_year_100:
  "normalizedRange 0 (civil 50 0 1) (civil 150 0 1)
       (Some \<lparr>range_start = civil 60 2 15, range_end = civil 120 5 15\<rparr>) True Month
     = \<lparr>range_start = civil 150 0 1, range_end = civil 120 6 1\<rparr>
   \<and> civil 50 0 1 \<le> civil 150 0 1 \<and> civil 120 6 1 < civil 150 0 1"
proof -
  have v: "civil 50 0 1 = - 60589296000000"
    "civil 150 0 1 = - 57433622400000"
    "civil 60 2 15 = - 60267369600000"
    "civil 120 5 15 = - 58366051200000"
    "civil 120 6 1 = - 58364668800000"
    by (simp_all add: date_defs)
  have f:
    "floorToGranularity 0 (- 60267369600000) Month = (- 310435200000)"
    "floorToGranularity 0 (- 58366051200000) Month = (- 58367260800000)"
    by (simp_all add: date_defs)
  have c:
    "ceilToGranularity 0 (- 58366051200000) Month = (- 58364668800000)"
    unfolding ceilToGranularity_def f Let_def by (simp_all add: date_defs)
  show ?thesis
    unfolding v normalizedRange_def range_of_value_def Let_def clampDate_def
    by (simp add: f c del: floorToGranularity.simps)
qed

subsection \<open>C2: the steps of the normalization\<close>

text \<open>
  Claim C2: both normalizations return the range that the three steps of the
  specification produce (\<open>normalize_spec\<close>): clamp, swap, and under \<open>snap\<close> floor and
  ceil, clamp again, swap again. \<open>commitDrag\<close> ends with the second swap;
  \<open>normalizedRange\<close> has none. From year 100 on none is needed, and
  \<open>normalizedRange\<close> returns the range of the steps (lemma \<open>normalizedRange_is_spec\<close>),
  as \<open>commitDrag\<close> does for a raw range within the bounds (lemma
  \<open>commitDrag_is_spec\<close>). Before year 100 the second clamp can invert the range, as
  under C1: with bounds from year 50 to year 150 and the range from 15 March 60 to
  15 June 120, months snapped, the steps give 1 July 120 to \<open>max\<close>, and
  \<open>normalizedRange\<close> gives \<open>max\<close> to 1 July 120.
\<close>

theorem normalizedRange_misses_second_swap:
  "normalize_spec 0 (civil 50 0 1) (civil 150 0 1)
       \<lparr>range_start = civil 60 2 15, range_end = civil 120 5 15\<rparr> True Month
     = \<lparr>range_start = civil 120 6 1, range_end = civil 150 0 1\<rparr>
   \<and> normalizedRange 0 (civil 50 0 1) (civil 150 0 1)
       (Some \<lparr>range_start = civil 60 2 15, range_end = civil 120 5 15\<rparr>) True Month
     = \<lparr>range_start = civil 150 0 1, range_end = civil 120 6 1\<rparr>
   \<and> normalizedRange 0 (civil 50 0 1) (civil 150 0 1)
       (Some \<lparr>range_start = civil 60 2 15, range_end = civil 120 5 15\<rparr>) True Month
     \<noteq> normalize_spec 0 (civil 50 0 1) (civil 150 0 1)
         \<lparr>range_start = civil 60 2 15, range_end = civil 120 5 15\<rparr> True Month"
proof -
  have v: "civil 50 0 1 = - 60589296000000"
    "civil 150 0 1 = - 57433622400000"
    "civil 60 2 15 = - 60267369600000"
    "civil 120 5 15 = - 58366051200000"
    "civil 120 6 1 = - 58364668800000"
    by (simp_all add: date_defs)
  have f:
    "floorToGranularity 0 (- 60267369600000) Month = (- 310435200000)"
    "floorToGranularity 0 (- 58366051200000) Month = (- 58367260800000)"
    by (simp_all add: date_defs)
  have c:
    "ceilToGranularity 0 (- 58366051200000) Month = (- 58364668800000)"
    unfolding ceilToGranularity_def f Let_def by (simp_all add: date_defs)
  show ?thesis
    unfolding v normalizedRange_def normalize_spec_def range_of_value_def Let_def clampDate_def
    by (simp add: f c del: floorToGranularity.simps)
qed

subsection \<open>C3: snapped ends on granularity boundaries\<close>


subsection \<open>C4: the band drag and the span\<close>




lemma bandDrag_truncates_at_epoch:
  "bandDrag 0 (- 10) 10 False Day \<lparr>range_start = 0, range_end = 3\<rparr> 0
     = \<lparr>range_start = - 1, range_end = 1\<rparr>"
proof -
  have "\<lfloor>(3::rat) / 2\<rfloor> = 1" by (rule floor_unique) simp_all
  moreover have "\<lceil>- ((3::rat) / 2)\<rceil> = - 1" by (rule ceiling_unique) simp_all
  ultimately show ?thesis
    by (simp add: bandDrag_def commitDrag_def clampDate_def newDateOfNumber_def Let_def)
qed

subsection \<open>C5: switching the granularity\<close>

text \<open>
  Claim C5: a granularity switch commits the current range with its start floored
  and its end ceiled to the new granularity, each clamped into the bounds. The
  current range is the normalized range of the selection: for a selection that is
  ordered and within the bounds it is the selection itself without \<open>snap\<close>, and the
  selection snapped to the granularity before the switch with \<open>snap\<close>. From day to
  year on the selection 5 to 8 March 2024 within 1 January to 31 December 2024 the
  switch commits 1 January to 31 December 2024; from day to month it commits 1 March
  to 1 April 2024, where with no selection it commits the full bounds.
\<close>

theorem granularity_switch_resnaps:
  "st_onChange (step tz mn mx snap track st (GranularityClick newG))
     = st_onChange st @
       [(let current = normalizedRange tz mn mx (st_value st) snap (st_granularity st)
         in \<lparr>range_start = clampDate (floorToGranularity tz (range_start current) newG) mn mx,
             range_end = clampDate (ceilToGranularity tz (range_end current) newG) mn mx\<rparr>)]
   \<and> (st_value st = Some v \<and> mn \<le> range_start v \<and> range_start v \<le> range_end v
        \<and> range_end v \<le> mx
      \<longrightarrow> st_onChange (step tz mn mx snap track st (GranularityClick newG))
          = st_onChange st @
            [(let current =
                    (if snap
                     then \<lparr>range_start =
                            clampDate (floorToGranularity tz (range_start v) (st_granularity st)) mn mx,
                           range_end =
                            clampDate (ceilToGranularity tz (range_end v) (st_granularity st)) mn mx\<rparr>
                     else v)
              in \<lparr>range_start = clampDate (floorToGranularity tz (range_start current) newG) mn mx,
                  range_end = clampDate (ceilToGranularity tz (range_end current) newG) mn mx\<rparr>)])
   \<and> st_onChange (step 0 (civil 2024 0 1) (civil 2024 11 31) True track
         (mounted Day (Some \<lparr>range_start = civil 2024 2 5, range_end = civil 2024 2 8\<rparr>))
         (GranularityClick Year))
     = [\<lparr>range_start = civil 2024 0 1, range_end = civil 2024 11 31\<rparr>]
   \<and> st_onChange (step 0 (civil 2024 0 1) (civil 2024 11 31) True track
         (mounted Day (Some \<lparr>range_start = civil 2024 2 5, range_end = civil 2024 2 8\<rparr>))
         (GranularityClick Month))
     = [\<lparr>range_start = civil 2024 2 1, range_end = civil 2024 3 1\<rparr>]
   \<and> st_onChange (step 0 (civil 2024 0 1) (civil 2024 11 31) True track
         (mounted Day None) (GranularityClick Month))
     = [\<lparr>range_start = civil 2024 0 1, range_end = civil 2024 11 31\<rparr>]"
proof -
  have general: "st_onChange (step tz mn mx snap track st (GranularityClick newG))
     = st_onChange st @
       [(let current = normalizedRange tz mn mx (st_value st) snap (st_granularity st)
         in \<lparr>range_start = clampDate (floorToGranularity tz (range_start current) newG) mn mx,
             range_end = clampDate (ceilToGranularity tz (range_end current) newG) mn mx\<rparr>)]"
    by (simp add: handleGranularityChange_def Let_def)
  have current: "normalizedRange tz mn mx (st_value st) snap (st_granularity st)
          = (if snap
             then \<lparr>range_start =
                      clampDate (floorToGranularity tz (range_start v) (st_granularity st)) mn mx,
                   range_end =
                      clampDate (ceilToGranularity tz (range_end v) (st_granularity st)) mn mx\<rparr>
             else v)"
    if "st_value st = Some v" "mn \<le> range_start v" "range_start v \<le> range_end v"
      "range_end v \<le> mx"
    using that
    by (simp add: normalizedRange_def range_of_value_def Let_def clampDate_def
          del: floorToGranularity.simps)
  have selection: "st_onChange (step tz mn mx snap track st (GranularityClick newG))
          = st_onChange st @
            [(let current =
                    (if snap
                     then \<lparr>range_start =
                            clampDate (floorToGranularity tz (range_start v) (st_granularity st)) mn mx,
                           range_end =
                            clampDate (ceilToGranularity tz (range_end v) (st_granularity st)) mn mx\<rparr>
                     else v)
              in \<lparr>range_start = clampDate (floorToGranularity tz (range_start current) newG) mn mx,
                  range_end = clampDate (ceilToGranularity tz (range_end current) newG) mn mx\<rparr>)]"
    if "st_value st = Some v" "mn \<le> range_start v" "range_start v \<le> range_end v"
      "range_end v \<le> mx"
    unfolding general current [OF that] ..
  have v: "civil 2024 0 1 = 1704067200000"
    "civil 2024 11 31 = 1735603200000"
    "civil 2024 2 5 = 1709596800000"
    "civil 2024 2 8 = 1709856000000"
    "civil 2024 2 1 = 1709251200000"
    "civil 2024 3 1 = 1711929600000"
    by (simp_all add: date_defs)
  have f:
    "floorToGranularity 0 1709596800000 Day = 1709596800000"
    "floorToGranularity 0 1709856000000 Day = 1709856000000"
    "floorToGranularity 0 1704067200000 Day = 1704067200000"
    "floorToGranularity 0 1735603200000 Day = 1735603200000"
    "floorToGranularity 0 1709596800000 Year = 1704067200000"
    "floorToGranularity 0 1709856000000 Year = 1704067200000"
    "floorToGranularity 0 1709596800000 Month = 1709251200000"
    "floorToGranularity 0 1709856000000 Month = 1709251200000"
    "floorToGranularity 0 1704067200000 Month = 1704067200000"
    "floorToGranularity 0 1735603200000 Month = 1733011200000"
    by (simp_all add: date_defs)
  have c:
    "ceilToGranularity 0 1709856000000 Day = 1709856000000"
    "ceilToGranularity 0 1735603200000 Day = 1735603200000"
    "ceilToGranularity 0 1709856000000 Year = 1735689600000"
    "ceilToGranularity 0 1709856000000 Month = 1711929600000"
    "ceilToGranularity 0 1735603200000 Month = 1735689600000"
    unfolding ceilToGranularity_def f Let_def by (simp_all add: date_defs)
  have n: "normalizedRange 0 1704067200000 1735603200000
        (Some \<lparr>range_start = 1709596800000, range_end = 1709856000000\<rparr>) True Day
      = \<lparr>range_start = 1709596800000, range_end = 1709856000000\<rparr>"
    "normalizedRange 0 1704067200000 1735603200000 None True Day
      = \<lparr>range_start = 1704067200000, range_end = 1735603200000\<rparr>"
    unfolding normalizedRange_def range_of_value_def Let_def clampDate_def
    by (simp_all add: f c del: floorToGranularity.simps)
  have h: "handleGranularityChange 0 1704067200000 1735603200000
        \<lparr>range_start = 1709596800000, range_end = 1709856000000\<rparr> Year
      = \<lparr>range_start = 1704067200000, range_end = 1735603200000\<rparr>"
    "handleGranularityChange 0 1704067200000 1735603200000
        \<lparr>range_start = 1709596800000, range_end = 1709856000000\<rparr> Month
      = \<lparr>range_start = 1709251200000, range_end = 1711929600000\<rparr>"
    "handleGranularityChange 0 1704067200000 1735603200000
        \<lparr>range_start = 1704067200000, range_end = 1735603200000\<rparr> Month
      = \<lparr>range_start = 1704067200000, range_end = 1735603200000\<rparr>"
    unfolding handleGranularityChange_def Let_def clampDate_def
    by (simp_all add: f c del: floorToGranularity.simps)
  have year: "st_onChange (step 0 (civil 2024 0 1) (civil 2024 11 31) True track
         (mounted Day (Some \<lparr>range_start = civil 2024 2 5, range_end = civil 2024 2 8\<rparr>))
         (GranularityClick Year))
     = [\<lparr>range_start = civil 2024 0 1, range_end = civil 2024 11 31\<rparr>]"
    unfolding v by (simp add: Let_def mounted_def n h)
  have month: "st_onChange (step 0 (civil 2024 0 1) (civil 2024 11 31) True track
         (mounted Day (Some \<lparr>range_start = civil 2024 2 5, range_end = civil 2024 2 8\<rparr>))
         (GranularityClick Month))
     = [\<lparr>range_start = civil 2024 2 1, range_end = civil 2024 3 1\<rparr>]"
    unfolding v by (simp add: Let_def mounted_def n h)
  have none: "st_onChange (step 0 (civil 2024 0 1) (civil 2024 11 31) True track
         (mounted Day None) (GranularityClick Month))
     = [\<lparr>range_start = civil 2024 0 1, range_end = civil 2024 11 31\<rparr>]"
    unfolding v by (simp add: Let_def mounted_def n h)
  from general selection year month none show ?thesis by blast
qed

text \<open>
  The theorem without \<open>snap\<close>, at the bounds of the scenario: from day to quarter
  on the selection 5 March to 20 May 2024 the switch commits 1 January to 1 July 2024.
\<close>

theorem granularity_switch_resnaps_witness:
  "st_value (mounted Day (Some \<lparr>range_start = civil 2024 2 5, range_end = civil 2024 4 20\<rparr>))
     = Some \<lparr>range_start = civil 2024 2 5, range_end = civil 2024 4 20\<rparr>
   \<and> civil 2024 0 1 \<le> civil 2024 2 5 \<and> civil 2024 2 5 \<le> civil 2024 4 20
   \<and> civil 2024 4 20 \<le> civil 2024 11 31
   \<and> st_onChange (step 0 (civil 2024 0 1) (civil 2024 11 31) False None
         (mounted Day (Some \<lparr>range_start = civil 2024 2 5, range_end = civil 2024 4 20\<rparr>))
         (GranularityClick Quarter))
     = [\<lparr>range_start = civil 2024 0 1, range_end = civil 2024 6 1\<rparr>]"
proof -
  let ?v = "\<lparr>range_start = civil 2024 2 5, range_end = civil 2024 4 20\<rparr>"
  have v: "civil 2024 0 1 = 1704067200000"
    "civil 2024 11 31 = 1735603200000"
    "civil 2024 2 5 = 1709596800000"
    "civil 2024 4 20 = 1716163200000"
    "civil 2024 6 1 = 1719792000000"
    by (simp_all add: date_defs)
  have f:
    "floorToGranularity 0 1709596800000 Quarter = 1704067200000"
    "floorToGranularity 0 1716163200000 Quarter = 1711929600000"
    by (simp_all add: date_defs)
  have c:
    "ceilToGranularity 0 1716163200000 Quarter = 1719792000000"
    unfolding ceilToGranularity_def f Let_def by (simp_all add: date_defs)
  have h: "st_value (mounted Day (Some ?v)) = Some ?v"
    "civil 2024 0 1 \<le> civil 2024 2 5" "civil 2024 2 5 \<le> civil 2024 4 20"
    "civil 2024 4 20 \<le> civil 2024 11 31"
    by (simp_all add: mounted_def v)
  note t = granularity_switch_resnaps
    [where tz = 0 and mn = "civil 2024 0 1" and mx = "civil 2024 11 31" and snap = False
       and track = None and st = "mounted Day (Some ?v)" and newG = Quarter and v = ?v]
  from t [THEN conjunct2, THEN conjunct1, THEN mp] h
  have "st_onChange (step 0 (civil 2024 0 1) (civil 2024 11 31) False None
         (mounted Day (Some ?v)) (GranularityClick Quarter))
     = st_onChange (mounted Day (Some ?v)) @
       [\<lparr>range_start = clampDate (floorToGranularity 0 (range_start ?v) Quarter)
                (civil 2024 0 1) (civil 2024 11 31),
         range_end = clampDate (ceilToGranularity 0 (range_end ?v) Quarter)
                (civil 2024 0 1) (civil 2024 11 31)\<rparr>]"
    by (simp add: Let_def del: floorToGranularity.simps step.simps)
  then have s: "st_onChange (step 0 (civil 2024 0 1) (civil 2024 11 31) False None
         (mounted Day (Some ?v)) (GranularityClick Quarter))
     = [\<lparr>range_start = civil 2024 0 1, range_end = civil 2024 6 1\<rparr>]"
    unfolding v clampDate_def
    by (simp add: f c mounted_def del: floorToGranularity.simps step.simps)
  from h s show ?thesis by (simp only: simp_thms)
qed

subsection \<open>C6: floor below and ceil above the date\<close>

text \<open>
  Claim C6: \<open>floor(d, g) \<le> d \<le> ceil(d, g)\<close> for every date, \<open>ceil(d, g) = d\<close> on a
  boundary and the start of the next period otherwise. It holds from year 100 on
  (lemmas \<open>floor_le\<close>, \<open>le_ceil\<close>, \<open>ceil_of_boundary\<close> and \<open>ceil_plain\<close>), and fails
  for the years 0 to 99, which the \<open>Date\<close> constructor reads as 1900 to 1999: the
  floor of noon on 15 June 50 to the month is 1 June 1950, nineteen centuries after
  the date.
\<close>

theorem floor_later_than_date_in_year_50:
  "floorToGranularity 0 (civil 50 5 15 + noon) Month = civil 1950 5 1
   \<and> civil 50 5 15 + noon < civil 1950 5 1"
proof -
  have v: "civil 50 5 15 + noon = - 60574996800000"
    "civil 1950 5 1 = - 618105600000"
    by (simp_all add: date_defs)
  show ?thesis
    unfolding v by (simp add: date_defs)
qed

subsection \<open>C8: the last move of a drag\<close>

text \<open>
  Claim C8: the last range committed in a drag reflects the last move event. It fails
  when the pointer is released before the frame of the last move runs: the callback
  reads \<open>dragging.current\<close> when it runs, finds it reset by \<open>onPointerUp\<close>, and commits
  nothing (lemma \<open>frame_after_release\<close>). On a track of 365 pixels over the year 2024,
  dragging the end handle to pixel 100, letting the frame run, moving on to pixel 200
  and releasing leaves 1 January to 1 May as the only range committed; the move to
  pixel 200 would have committed 1 January to 1 August.
\<close>

theorem last_move_dropped_by_pointer_up:
  "st_onChange (run 0 (civil 2024 0 1) (civil 2024 11 31) True (Some \<lparr>rect_left = 0, rect_width = 365\<rparr>)
       (mounted Month (Some \<lparr>range_start = civil 2024 0 1, range_end = civil 2024 11 31\<rparr>))
       [PointerDown DragEnd, PointerMove 100, AnimationFrame,
        PointerMove 200, PointerUp, AnimationFrame])
     = [\<lparr>range_start = civil 2024 0 1, range_end = civil 2024 4 1\<rparr>]
   \<and> moveCallback 0 (civil 2024 0 1) (civil 2024 11 31) True Month
         \<lparr>range_start = civil 2024 0 1, range_end = civil 2024 4 1\<rparr>
         (Some \<lparr>rect_left = 0, rect_width = 365\<rparr>) (Some DragEnd) 200
     = Some \<lparr>range_start = civil 2024 0 1, range_end = civil 2024 7 1\<rparr>"
proof -
  have v: "civil 2024 0 1 = 1704067200000"
    "civil 2024 11 31 = 1735603200000"
    "civil 2024 4 1 = 1714521600000"
    "civil 2024 7 1 = 1722470400000"
    by (simp_all add: date_defs)
  have f:
    "floorToGranularity 0 1704067200000 Month = 1704067200000"
    "floorToGranularity 0 1735603200000 Month = 1733011200000"
    "floorToGranularity 0 1712707200000 Month = 1711929600000"
    "floorToGranularity 0 1721347200000 Month = 1719792000000"
    "floorToGranularity 0 1714521600000 Month = 1714521600000"
    by (simp_all add: date_defs)
  have c:
    "ceilToGranularity 0 1735603200000 Month = 1735689600000"
    "ceilToGranularity 0 1712707200000 Month = 1714521600000"
    "ceilToGranularity 0 1721347200000 Month = 1722470400000"
    "ceilToGranularity 0 1714521600000 Month = 1714521600000"
    unfolding ceilToGranularity_def f Let_def by (simp_all add: date_defs)
  have p: "fromPct 1704067200000 1735603200000 (pointerToPct (Some \<lparr>rect_left = 0, rect_width = 365\<rparr>) 100) = 1712707200000"
    "fromPct 1704067200000 1735603200000 (pointerToPct (Some \<lparr>rect_left = 0, rect_width = 365\<rparr>) 200) = 1721347200000"
    by (simp_all add: fromPct_def pointerToPct_def total_ms_def newDateOfNumber_def)
  have n: "normalizedRange 0 1704067200000 1735603200000
        (Some \<lparr>range_start = 1704067200000, range_end = 1735603200000\<rparr>) True Month
      = \<lparr>range_start = 1704067200000, range_end = 1735603200000\<rparr>"
    "normalizedRange 0 1704067200000 1735603200000
        (Some \<lparr>range_start = 1704067200000, range_end = 1714521600000\<rparr>) True Month
      = \<lparr>range_start = 1704067200000, range_end = 1714521600000\<rparr>"
    unfolding normalizedRange_def range_of_value_def Let_def clampDate_def
    by (simp_all add: f c del: floorToGranularity.simps)
  have d: "commitDrag 0 1704067200000 1735603200000 True Month 1704067200000 1712707200000
      = \<lparr>range_start = 1704067200000, range_end = 1714521600000\<rparr>"
    "commitDrag 0 1704067200000 1735603200000 True Month 1704067200000 1721347200000
      = \<lparr>range_start = 1704067200000, range_end = 1722470400000\<rparr>"
    unfolding commitDrag_def Let_def clampDate_def
    by (simp_all add: f c del: floorToGranularity.simps)
  show ?thesis
    unfolding v run_def mounted_def
    by (simp add: moveCallback_def Let_def p n d)
qed

subsection \<open>C9: every range passed to onChange\<close>

text \<open>
  Claim C9: every range passed to \<open>onChange\<close> satisfies \<open>min \<le> start \<le> end \<le> max\<close>,
  the granularity switch included. The drags do (lemma \<open>commitDrag_within\<close>), and the
  switch does from year 100 on (lemma \<open>handleGranularityChange_within\<close>; lemma
  \<open>run_commits_within\<close> for all ranges of a run of events on a track of positive
  width). Before that
  it fails, by the two-digit years of the \<open>Date\<close> constructor again: with bounds from
  year 50 to year 150, \<open>snap\<close> off and the selection 15 March 60 to 15 June 120, a
  switch to years floors the start to 1 January 1960, clamped to \<open>max\<close>, and ceils the
  end to 1 January 121.
\<close>

theorem granularity_switch_inverted_across_year_100:
  "handleGranularityChange 0 (civil 50 0 1) (civil 150 0 1)
       (normalizedRange 0 (civil 50 0 1) (civil 150 0 1)
          (Some \<lparr>range_start = civil 60 2 15, range_end = civil 120 5 15\<rparr>) False Day) Year
     = \<lparr>range_start = civil 150 0 1, range_end = civil 121 0 1\<rparr>
   \<and> civil 50 0 1 \<le> civil 150 0 1 \<and> civil 121 0 1 < civil 150 0 1"
proof -
  have v: "civil 50 0 1 = - 60589296000000"
    "civil 150 0 1 = - 57433622400000"
    "civil 60 2 15 = - 60267369600000"
    "civil 120 5 15 = - 58366051200000"
    "civil 121 0 1 = - 58348771200000"
    by (simp_all add: date_defs)
  have f:
    "floorToGranularity 0 (- 60267369600000) Year = (- 315619200000)"
    "floorToGranularity 0 (- 58366051200000) Year = (- 58380393600000)"
    by (simp_all add: date_defs)
  have c:
    "ceilToGranularity 0 (- 58366051200000) Year = (- 58348771200000)"
    unfolding ceilToGranularity_def f Let_def by (simp_all add: date_defs)
  show ?thesis
    unfolding v handleGranularityChange_def normalizedRange_def range_of_value_def Let_def clampDate_def
    by (simp add: f c del: floorToGranularity.simps)
qed

subsection \<open>C10: the omitted value\<close>

text \<open>
  Claim C10: an omitted \<open>value\<close> is the full bounds: the range read is
  \<open>{start: min, end: max}\<close>, the normalized range is that of this value, and on
  every event the component without a value commits, schedules and keeps what it
  does with the full bounds as its value.
\<close>

theorem omitted_value_is_full_bounds:
  "range_of_value mn mx None = \<lparr>range_start = mn, range_end = mx\<rparr>
   \<and> normalizedRange tz mn mx None snap g
     = normalizedRange tz mn mx (Some \<lparr>range_start = mn, range_end = mx\<rparr>) snap g
   \<and> (let a = step tz mn mx snap track (st\<lparr>st_value := None\<rparr>) ev;
           b = step tz mn mx snap track
                 (st\<lparr>st_value := Some \<lparr>range_start = mn, range_end = mx\<rparr>\<rparr>) ev
       in st_onChange a = st_onChange b \<and> st_raf a = st_raf b
          \<and> st_dragging a = st_dragging b \<and> st_granularity a = st_granularity b)"
proof -
  have n: "normalizedRange tz mn mx None snap g'
      = normalizedRange tz mn mx (Some \<lparr>range_start = mn, range_end = mx\<rparr>) snap g'" for g'
    by (simp add: normalizedRange_def range_of_value_def)
  show ?thesis
    by (cases ev) (auto simp: n range_of_value_def Let_def split: option.splits)
qed

end
